theory Spec2Isabelle
  imports Main "HOL-Library.Sublist"
begin

section \<open>Strings of the source language\<close>

text \<open>
  The source is JavaScript: a string is a sequence of UTF-16 code units. In this
  development a string is a \<^typ>\<open>string\<close> and every \<^typ>\<open>char\<close> stands for one code unit
  with a value below 256 (the Latin-1 range); code units from 256 on are outside the
  model. On that range the character classes of the regular expressions and the case
  mapping below are the ones of the language.
\<close>

definition isWordChar :: "char \<Rightarrow> bool" where
  \<comment> \<open>the class \<open>\w\<close>: \<open>[A-Za-z0-9_]\<close>\<close>
  "isWordChar c =
     (let n = (of_char c :: nat)
      in (48 \<le> n \<and> n \<le> 57) \<or> (65 \<le> n \<and> n \<le> 90) \<or> n = 95 \<or> (97 \<le> n \<and> n \<le> 122))"

definition isSpaceChar :: "char \<Rightarrow> bool" where
  \<comment> \<open>the class \<open>\s\<close> below 256: TAB, LF, VT, FF, CR, SPACE and NO-BREAK SPACE\<close>
  "isSpaceChar c =
     (let n = (of_char c :: nat)
      in (9 \<le> n \<and> n \<le> 13) \<or> n = 32 \<or> n = 160)"

definition lowerChar :: "char \<Rightarrow> char" where
  \<comment> \<open>the lower-case mapping below 256: \<open>A-Z\<close> and the capital letters \<open>0xC0-0xDE\<close>
      (the multiplication sign \<open>0xD7\<close> apart) move up by 32\<close>
  "lowerChar c =
     (let n = (of_char c :: nat)
      in if (65 \<le> n \<and> n \<le> 90) \<or> (192 \<le> n \<and> n \<le> 222 \<and> n \<noteq> 215)
         then char_of (n + 32) else c)"

definition toLowerCase :: "string \<Rightarrow> string" where
  "toLowerCase s = map lowerChar s"

fun startsWith :: "string \<Rightarrow> string \<Rightarrow> bool" where
  "startsWith s [] = True"
| "startsWith [] (p # ps) = False"
| "startsWith (c # cs) (p # ps) = (c = p \<and> startsWith cs ps)"

fun includes_str :: "string \<Rightarrow> string \<Rightarrow> bool" where
  \<comment> \<open>\<open>s.includes(p)\<close>: some position of \<open>s\<close>, its end included, is the start of \<open>p\<close>\<close>
  "includes_str [] p = (p = [])"
| "includes_str (c # cs) p = (startsWith (c # cs) p \<or> includes_str cs p)"

fun join :: "string list \<Rightarrow> string \<Rightarrow> string" where
  \<comment> \<open>\<open>xs.join(sep)\<close>\<close>
  "join [] sep = []"
| "join [x] sep = x"
| "join (x # y # ys) sep = x @ sep @ join (y # ys) sep"

fun replace_nonword :: "string \<Rightarrow> string" where
  \<comment> \<open>\<open>s.replace(/[^\w\s]|_/g, "")\<close>: every match is one code unit, replaced by nothing\<close>
  "replace_nonword [] = []"
| "replace_nonword (c # cs) =
     (if (\<not> isWordChar c \<and> \<not> isSpaceChar c) \<or> c = CHR ''_''
      then replace_nonword cs
      else c # replace_nonword cs)"

function replace_spaces :: "string \<Rightarrow> string" where
  \<comment> \<open>\<open>s.replace(/\s+/g, " ")\<close>: a match is a longest run of white space, replaced by
      one space; the scan goes on after the run\<close>
  "replace_spaces [] = []"
| "replace_spaces (c # cs) =
     (if isSpaceChar c
      then CHR '' '' # replace_spaces (dropWhile isSpaceChar cs)
      else c # replace_spaces cs)"
  by pat_completeness auto
termination
  by (relation "measure length") (auto simp: le_imp_less_Suc length_dropWhile_le)

section \<open>The resource disambiguator\<close>

definition narrowStep :: "string list \<Rightarrow> string list \<Rightarrow> string list \<Rightarrow> string list" where
  \<comment> \<open>the body of the loop of \<open>pickMostPossibleFile\<close>, after \<open>possibleLocation\<close> has
      received the token: the new value of \<open>files\<close>\<close>
  "narrowStep vpnFiles possibleLocation files =
     (let filteredFiles =
            filter (\<lambda>vpnFile.
                includes_str (replace_spaces (replace_nonword vpnFile))
                  (join possibleLocation '' '')) vpnFiles
      in if length filteredFiles \<noteq> 0 \<and> length filteredFiles < length files
         then filteredFiles else files)"

fun narrowLoop :: "string list \<Rightarrow> string list \<Rightarrow> string list \<Rightarrow> string list \<Rightarrow> string list" where
  \<comment> \<open>\<open>for (const token of tokens)\<close>, with the two variables of the loop\<close>
  "narrowLoop vpnFiles possibleLocation files [] = files"
| "narrowLoop vpnFiles possibleLocation files (token # tokens) =
     narrowLoop vpnFiles (possibleLocation @ [token])
       (narrowStep vpnFiles (possibleLocation @ [token]) files) tokens"

definition pickMostPossibleFile :: "string list \<Rightarrow> string list \<Rightarrow> string list" where
  "pickMostPossibleFile vpnFiles tokens =
     (if length vpnFiles = 1 then vpnFiles
      else narrowLoop vpnFiles [] vpnFiles tokens)"

text \<open>
  The same step in the words of the specification: the candidates are normalised by
  stripping punctuation and underscores and collapsing white space, the original
  candidate list is filtered for the candidates whose normalised text contains the
  accumulated phrase as a contiguous substring, and the working set is replaced only by
  a filtered set that is non-empty and strictly smaller. Punctuation is the punctuation
  marks of ASCII: the printable characters that are neither letters nor digits nor the
  space.
\<close>

definition isPunctuation :: "char \<Rightarrow> bool" where
  \<comment> \<open>\<open>!\<close> to \<open>/\<close>, \<open>:\<close> to \<open>@\<close>, \<open>[\<close> to the grave accent, \<open>{\<close> to \<open>~\<close>\<close>
  "isPunctuation c =
     (let n = (of_char c :: nat)
      in (33 \<le> n \<and> n \<le> 47) \<or> (58 \<le> n \<and> n \<le> 64) \<or> (91 \<le> n \<and> n \<le> 96)
         \<or> (123 \<le> n \<and> n \<le> 126))"

fun spec_collapse :: "string \<Rightarrow> string" where
  \<comment> \<open>every maximal run of white space becomes a single space\<close>
  "spec_collapse [] = []"
| "spec_collapse [c] = [if isSpaceChar c then CHR '' '' else c]"
| "spec_collapse (c # d # cs) =
     (if isSpaceChar c \<and> isSpaceChar d then spec_collapse (d # cs)
      else (if isSpaceChar c then CHR '' '' else c) # spec_collapse (d # cs))"

definition spec_normalize :: "string \<Rightarrow> string" where
  "spec_normalize c = spec_collapse (filter (\<lambda>ch. \<not> (isPunctuation ch \<or> ch = CHR ''_'')) c)"

definition spec_narrow_step :: "string list \<Rightarrow> string list \<Rightarrow> string list \<Rightarrow> string list" where
  "spec_narrow_step candidates accumulatedPhrase currentSet =
     (let filtered =
            filter (\<lambda>c. sublist (join accumulatedPhrase '' '') (spec_normalize c)) candidates
      in if filtered \<noteq> [] \<and> length filtered < length currentSet
         then filtered else currentSet)"

text \<open>
  The step with the normalisation that the two replacements of the source perform, in
  words: of a candidate only the letters and digits of ASCII and the white space are
  kept (so not only punctuation and underscores go, also every other code unit, such as
  a letter with a diacritic or a control character), and white space is collapsed.
\<close>

definition isAlnum :: "char \<Rightarrow> bool" where
  \<comment> \<open>\<open>[A-Za-z0-9]\<close>\<close>
  "isAlnum c =
     (let n = (of_char c :: nat)
      in (48 \<le> n \<and> n \<le> 57) \<or> (65 \<le> n \<and> n \<le> 90) \<or> (97 \<le> n \<and> n \<le> 122))"

definition alnum_normalize :: "string \<Rightarrow> string" where
  "alnum_normalize c = spec_collapse (filter (\<lambda>ch. isAlnum ch \<or> isSpaceChar ch) c)"

definition alnum_narrow_step :: "string list \<Rightarrow> string list \<Rightarrow> string list \<Rightarrow> string list" where
  "alnum_narrow_step candidates accumulatedPhrase currentSet =
     (let filtered =
            filter (\<lambda>c. sublist (join accumulatedPhrase '' '') (alnum_normalize c)) candidates
      in if filtered \<noteq> [] \<and> length filtered < length currentSet
         then filtered else currentSet)"

section \<open>The VPN form: collaborators, payloads and handlers\<close>

text \<open>
  The handlers are asynchronous methods that call three collaborators: the configuration
  store, the file enumerator and the broker client. A handler is modelled as a function
  that returns its outcome (\<open>Inl\<close> a rejection, \<open>Inr\<close> the response of the worker)
  together with the calls it made to the enumerator and the broker, in order. A value
  that the source may leave \<open>undefined\<close> or \<open>null\<close> is an option.
\<close>

datatype error =
    TypeError \<comment> \<open>a method called on \<open>undefined\<close> or \<open>null\<close>\<close>
  | Rejected string \<comment> \<open>a rejection of a collaborator, with its message\<close>

datatype event =
    CallGetDirFiles "string option"
  | CallCreateConnection
  | CallSendToChannelWithResponse "string option" "string option"

record 'r services =
  config_get :: "string \<Rightarrow> string option"
  getDirFiles :: "string option \<Rightarrow> error + string list"
  createConnection :: "error + unit"
  sendToChannelWithResponse :: "string option \<Rightarrow> string option \<Rightarrow> error + 'r"

text \<open>
  The action type strings come from the shared constants module, which is not part of
  the sources at hand: they are parameters.
\<close>

record actionTypes =
  VpnStart :: string
  VpnStop :: string
  VpnStatus :: string

subsection \<open>Arrays and strings\<close>

fun indexOf :: "'a list \<Rightarrow> 'a \<Rightarrow> int" where
  \<comment> \<open>\<open>xs.indexOf(x)\<close>: the first index of \<open>x\<close>, or \<open>-1\<close>\<close>
  "indexOf [] x = - 1"
| "indexOf (y # ys) x =
     (if y = x then 0
      else (let i = indexOf ys x in if i < 0 then - 1 else i + 1))"

definition slice :: "'a list \<Rightarrow> int \<Rightarrow> 'a list" where
  \<comment> \<open>\<open>xs.slice(start)\<close>: a negative start counts from the end\<close>
  "slice xs start =
     (let len = int (length xs);
          k = (if start < 0 then max (len + start) 0 else min start len)
      in drop (nat k) xs)"

definition firstElement :: "'a list \<Rightarrow> 'a option" where
  \<comment> \<open>the destructuring \<open>const [x] = xs\<close>: \<open>undefined\<close> on the empty array\<close>
  "firstElement xs = (case xs of [] \<Rightarrow> None | x # _ \<Rightarrow> Some x)"

fun split_str :: "string \<Rightarrow> char \<Rightarrow> string list" where
  \<comment> \<open>\<open>s.split(sep)\<close> for a separator of one code unit\<close>
  "split_str [] sep = [[]]"
| "split_str (c # cs) sep =
     (if c = sep then [] # split_str cs sep
      else (case split_str cs sep of
              [] \<Rightarrow> [[c]]
            | w # ws \<Rightarrow> (c # w) # ws))"

subsection \<open>JSON.stringify\<close>

datatype json = JUndefined | JString string | JObject "(string \<times> json) list"

definition hexDigit :: "nat \<Rightarrow> char" where
  "hexDigit n = (if n < 10 then char_of (48 + n) else char_of (87 + n))"

definition quoteChar :: "char \<Rightarrow> string" where
  \<comment> \<open>the escapes of a JSON string: quotation mark, reverse solidus, the control
      characters\<close>
  "quoteChar c =
     (let n = (of_char c :: nat)
      in if n = 34 then [CHR 0x5C, CHR 0x22]
         else if n = 92 then [CHR 0x5C, CHR 0x5C]
         else if n = 8 then [CHR 0x5C, CHR ''b'']
         else if n = 9 then [CHR 0x5C, CHR ''t'']
         else if n = 10 then [CHR 0x5C, CHR ''n'']
         else if n = 12 then [CHR 0x5C, CHR ''f'']
         else if n = 13 then [CHR 0x5C, CHR ''r'']
         else if n < 32
           then [CHR 0x5C, CHR ''u'', CHR ''0'', CHR ''0'', hexDigit (n div 16), hexDigit (n mod 16)]
         else [c])"

definition quoteJSONString :: "string \<Rightarrow> string" where
  "quoteJSONString s = [CHR 0x22] @ concat (map quoteChar s) @ [CHR 0x22]"

fun JSON_stringify :: "json \<Rightarrow> string option"
  and JSON_members :: "(string \<times> json) list \<Rightarrow> string list" where
  \<comment> \<open>\<open>undefined\<close> has no serialization, and a property whose value is \<open>undefined\<close>
      is left out of its object\<close>
  "JSON_stringify JUndefined = None"
| "JSON_stringify (JString s) = Some (quoteJSONString s)"
| "JSON_stringify (JObject kvs) = Some (''{'' @ join (JSON_members kvs) '','' @ ''}'')"
| "JSON_members [] = []"
| "JSON_members ((k, v) # kvs) =
     (case JSON_stringify v of
        None \<Rightarrow> JSON_members kvs
      | Some t \<Rightarrow> (quoteJSONString k @ '':'' @ t) # JSON_members kvs)"

definition json_of :: "string option \<Rightarrow> json" where
  "json_of v = (case v of None \<Rightarrow> JUndefined | Some s \<Rightarrow> JString s)"

subsection \<open>Handlers\<close>

fun filterFiles :: "string list \<Rightarrow> string option \<Rightarrow> error + string list" where
  \<comment> \<open>\<open>files.filter((name) => name.toLowerCase().includes(location.toLowerCase()))\<close>:
      the callback runs once for each file and throws when the location is missing\<close>
  "filterFiles [] location = Inr []"
| "filterFiles (name # names) location =
     (case location of
        None \<Rightarrow> Inl TypeError
      | Some loc \<Rightarrow>
          (case filterFiles names location of
             Inl e \<Rightarrow> Inl e
           | Inr rest \<Rightarrow>
               Inr (if includes_str (toLowerCase name) (toLowerCase loc)
                    then name # rest else rest)))"

definition getLocationVpnFiles ::
  "'r services \<Rightarrow> string option \<Rightarrow> (error + string list) \<times> event list" where
  "getLocationVpnFiles svc location =
     (let vpnFolderFilesPath = config_get svc ''VPN.FolderFilesPath''
      in case getDirFiles svc vpnFolderFilesPath of
           Inl e \<Rightarrow> (Inl e, [CallGetDirFiles vpnFolderFilesPath])
         | Inr files \<Rightarrow> (filterFiles files location, [CallGetDirFiles vpnFolderFilesPath]))"

definition tokensAfterLocation :: "string list \<Rightarrow> string option \<Rightarrow> string list" where
  \<comment> \<open>\<open>tokens.slice(tokens.indexOf(location))\<close>; the tokens are strings, the location
      may be missing\<close>
  "tokensAfterLocation tokens location = slice tokens (indexOf (map Some tokens) location)"

definition sendAction ::
  "'r services \<Rightarrow> json \<Rightarrow> (error + 'r) \<times> event list" where
  \<comment> \<open>the tail shared by the three handlers: read the queue name, open the connection,
      send the serialized payload and return the response\<close>
  "sendAction svc payload =
     (let queueName = config_get svc ''Rabbit.AnsibleQueueName''
      in case createConnection svc of
           Inl e \<Rightarrow> (Inl e, [CallCreateConnection])
         | Inr _ \<Rightarrow>
             (let text = JSON_stringify payload
              in (sendToChannelWithResponse svc queueName text,
                  [CallCreateConnection, CallSendToChannelWithResponse queueName text])))"

definition startVpnHandler ::
  "actionTypes \<Rightarrow> 'r services \<Rightarrow> string option \<Rightarrow> string list \<Rightarrow> (error + 'r) \<times> event list" where
  \<comment> \<open>\<open>location\<close> is \<open>action.getPropByType(TokenTypes.COUNTRY)?.value\<close>: the class of
      the action is not among the sources at hand, so the value is a parameter, \<open>None\<close>
      when the prop or its value is missing\<close>
  "startVpnHandler at svc location tokens =
     (case getLocationVpnFiles svc location of
        (Inl e, log) \<Rightarrow> (Inl e, log)
      | (Inr vpnFiles, log) \<Rightarrow>
          (case firstElement (pickMostPossibleFile vpnFiles (tokensAfterLocation tokens location)) of
             None \<Rightarrow> (Inl TypeError, log)
           | Some vpnFilePath \<Rightarrow>
               (let vpnFileName = firstElement (split_str vpnFilePath CHR ''.'');
                    (r, log') =
                      sendAction svc
                        (JObject [(''name'', JString (VpnStart at)),
                                  (''props'', JObject [(''vpnFileName'', json_of vpnFileName)])])
                in (r, log @ log'))))"

definition stopVpnHandler :: "actionTypes \<Rightarrow> 'r services \<Rightarrow> (error + 'r) \<times> event list" where
  "stopVpnHandler at svc =
     sendAction svc (JObject [(''name'', JString (VpnStop at)), (''props'', JObject [])])"

definition vpnStatusHandler :: "actionTypes \<Rightarrow> 'r services \<Rightarrow> (error + 'r) \<times> event list" where
  "vpnStatusHandler at svc =
     sendAction svc (JObject [(''name'', JString (VpnStatus at)), (''props'', JObject [])])"

section \<open>Retry of an action after a recovery\<close>

datatype retry_event = Attempt | Recovery

text \<open>
  The action and the recovery callback run in a world \<open>'w\<close> that both may change. Each
  call is recorded, so that the number and the order of the calls can be read off the
  result.
\<close>

definition attempt ::
  "('w \<Rightarrow> ('e + 'a) \<times> 'w) \<Rightarrow> 'w \<times> retry_event list \<Rightarrow> ('e + 'a) \<times> ('w \<times> retry_event list)" where
  \<comment> \<open>one call of the action\<close>
  "attempt action s = (case action (fst s) of (r, w') \<Rightarrow> (r, (w', snd s @ [Attempt])))"

definition recover :: "('w \<Rightarrow> 'w) \<Rightarrow> 'w \<times> retry_event list \<Rightarrow> 'w \<times> retry_event list" where
  \<comment> \<open>one call of the recovery callback\<close>
  "recover recovery s = (recovery (fst s), snd s @ [Recovery])"

text \<open>
  Modelled from the spec: \<open>runFunctionWithRetry\<close> (\<open>executeWithRetry\<close> in the
  specification) is imported by the commands controller from the shared utilities, which
  are not part of the sources at hand. The specification says: it wraps one execution
  attempt; on failure it invokes the supplied recovery callback once, then retries the
  original action once more; a second failure is terminal and propagated to the caller.
  The specification is silent on a recovery callback that fails itself: here the
  callback is a change of the world.
\<close>

definition runFunctionWithRetry ::
  "('w \<Rightarrow> ('e + 'a) \<times> 'w) \<Rightarrow> ('w \<Rightarrow> 'w) \<Rightarrow> 'w \<times> retry_event list
     \<Rightarrow> ('e + 'a) \<times> ('w \<times> retry_event list)" where
  "runFunctionWithRetry action recovery s =
     (case attempt action s of
        (Inr v, s1) \<Rightarrow> (Inr v, s1)
      | (Inl e, s1) \<Rightarrow> attempt action (recover recovery s1))"

section \<open>Example collaborators\<close>

text \<open>
  Concrete collaborators and actions, on which the theorems below are instantiated: an
  enumerator that lists the given files and a broker that accepts every message; an
  action that fails until the recovery has run, and one that always fails.
\<close>

definition exampleServices :: "string list \<Rightarrow> string services" where
  "exampleServices files =
     \<lparr>config_get = (\<lambda>key. if key = ''VPN.FolderFilesPath'' then Some ''/etc/vpn''
                          else if key = ''Rabbit.AnsibleQueueName'' then Some ''ansible''
                          else None),
      getDirFiles = (\<lambda>path. Inr files),
      createConnection = Inr (),
      sendToChannelWithResponse = (\<lambda>queueName payload. Inr ''{}'')\<rparr>"

definition exampleActionTypes :: actionTypes where
  "exampleActionTypes = \<lparr>VpnStart = ''VpnStart'', VpnStop = ''VpnStop'', VpnStatus = ''VpnStatus''\<rparr>"

definition expiredOnce :: "nat \<Rightarrow> (string + string) \<times> nat" where
  "expiredOnce w = (if w = 0 then (Inl ''expired'', w) else (Inr ''OK'', w))"

definition alwaysFails :: "nat \<Rightarrow> (string + string) \<times> nat" where
  "alwaysFails w = (Inl (if w = 0 then ''first'' else ''second''), w)"

section \<open>Properties of the resource disambiguator\<close>

subsection \<open>One step of the loop\<close>

lemma narrowStep_cases:
  "narrowStep v p f = f \<or>
   (narrowStep v p f \<noteq> [] \<and> length (narrowStep v p f) < length f \<and> subseq (narrowStep v p f) v)"
  by (auto simp: narrowStep_def Let_def)

lemma length_narrowStep_le: "length (narrowStep v p f) \<le> length f"
  using narrowStep_cases [of v p f] by auto

lemma narrowStep_nonempty: "f \<noteq> [] \<Longrightarrow> narrowStep v p f \<noteq> []"
  using narrowStep_cases [of v p f] by auto

lemma subseq_narrowStep: "subseq f v \<Longrightarrow> subseq (narrowStep v p f) v"
  using narrowStep_cases [of v p f] by auto

lemma narrowStep_singleton: "length v = 1 \<Longrightarrow> narrowStep v p v = v"
proof -
  assume "length v = 1"
  moreover have "length (filter q v) \<le> length v" for q by simp
  ultimately show ?thesis
    by (auto simp: narrowStep_def Let_def)
qed

lemma narrowStep_Nil: "narrowStep [] p [] = []"
  by (simp add: narrowStep_def)

subsection \<open>The loop\<close>

text \<open>
  The loop over \<open>tokens @ [token]\<close> is the loop over \<open>tokens\<close> followed by one more
  step: the result on a prefix of the tokens is the working set after that prefix.
\<close>

lemma narrowLoop_snoc:
  "narrowLoop v p f (ts @ [t]) = narrowStep v (p @ ts @ [t]) (narrowLoop v p f ts)"
  by (induction ts arbitrary: p f) simp_all

lemma pickMostPossibleFile_snoc:
  "pickMostPossibleFile v (ts @ [t]) = narrowStep v (ts @ [t]) (pickMostPossibleFile v ts)"
  by (simp add: pickMostPossibleFile_def narrowLoop_snoc narrowStep_singleton)

lemma subseq_narrowLoop: "subseq f v \<Longrightarrow> subseq (narrowLoop v p f ts) v"
  by (induction ts arbitrary: p f) (simp_all add: subseq_narrowStep)

lemma narrowLoop_nonempty: "f \<noteq> [] \<Longrightarrow> narrowLoop v p f ts \<noteq> []"
  by (induction ts arbitrary: p f) (simp_all add: narrowStep_nonempty)

lemma narrowLoop_Nil: "narrowLoop [] p [] ts = []"
  by (induction ts arbitrary: p) (simp_all add: narrowStep_Nil)

lemma pickMostPossibleFile_Nil: "pickMostPossibleFile [] ts = []"
  by (simp add: pickMostPossibleFile_def narrowLoop_Nil)

text \<open>
  C1 (narrowing monotonicity). For every candidate list and every token sequence,
  \<open>pickMostPossibleFile\<close> returns a sublist of the candidates; no step of the loop makes
  the working set longer, so the result after one more token is no longer than the
  result before it; and the result is empty only if the candidate list is empty.
\<close>

theorem narrowing_monotonic:
  "subseq (pickMostPossibleFile vpnFiles tokens) vpnFiles
   \<and> length (narrowStep vpnFiles possibleLocation files) \<le> length files
   \<and> length (pickMostPossibleFile vpnFiles (tokens @ [token]))
        \<le> length (pickMostPossibleFile vpnFiles tokens)
   \<and> (pickMostPossibleFile vpnFiles tokens = [] \<longrightarrow> vpnFiles = [])"
proof (intro conjI impI)
  show "subseq (pickMostPossibleFile vpnFiles tokens) vpnFiles"
    by (simp add: pickMostPossibleFile_def subseq_narrowLoop)
  show "length (narrowStep vpnFiles possibleLocation files) \<le> length files"
    by (rule length_narrowStep_le)
  show "length (pickMostPossibleFile vpnFiles (tokens @ [token]))
           \<le> length (pickMostPossibleFile vpnFiles tokens)"
    by (simp add: pickMostPossibleFile_snoc length_narrowStep_le)
  show "vpnFiles = []" if "pickMostPossibleFile vpnFiles tokens = []"
  proof (rule ccontr)
    assume "vpnFiles \<noteq> []"
    then have "pickMostPossibleFile vpnFiles tokens \<noteq> []"
      by (simp add: pickMostPossibleFile_def narrowLoop_nonempty)
    with that show False by simp
  qed
qed

theorem narrowing_monotonic_witness:
  "pickMostPossibleFile [''vpn uk london.ovpn'', ''vpn uk leeds.ovpn''] [''uk'', ''leeds'']
     = [''vpn uk leeds.ovpn'']
   \<and> subseq [''vpn uk leeds.ovpn''] [''vpn uk london.ovpn'', ''vpn uk leeds.ovpn'']
   \<and> pickMostPossibleFile [] [''uk'', ''leeds''] = []"
proof -
  have a: "pickMostPossibleFile [''vpn uk london.ovpn'', ''vpn uk leeds.ovpn''] [''uk'', ''leeds'']
             = [''vpn uk leeds.ovpn'']"
    by code_simp
  have "subseq (pickMostPossibleFile [''vpn uk london.ovpn'', ''vpn uk leeds.ovpn''] [''uk'', ''leeds''])
          [''vpn uk london.ovpn'', ''vpn uk leeds.ovpn'']"
    using narrowing_monotonic [of "[''vpn uk london.ovpn'', ''vpn uk leeds.ovpn'']" "[''uk'', ''leeds'']"]
    by (rule conjunct1)
  then have b: "subseq [''vpn uk leeds.ovpn''] [''vpn uk london.ovpn'', ''vpn uk leeds.ovpn'']"
    by (simp only: a)
  have c: "pickMostPossibleFile [] [''uk'', ''leeds''] = []"
    by (rule pickMostPossibleFile_Nil)
  from a b c show ?thesis by (intro conjI)
qed

text \<open>
  C3 (single-candidate shortcut). A candidate list of length at most 1 is returned as it
  is, whatever the tokens are. The source tests for length 1 only; on the empty list the
  loop runs and keeps the working set empty.
\<close>

theorem single_candidate_shortcut:
  assumes "length vpnFiles \<le> 1"
  shows "pickMostPossibleFile vpnFiles tokens = vpnFiles"
proof (cases "length vpnFiles = 1")
  case True
  then show ?thesis by (simp add: pickMostPossibleFile_def)
next
  case False
  with assms have "length vpnFiles = 0" by arith
  then have "vpnFiles = []" by simp
  then show ?thesis by (simp add: pickMostPossibleFile_Nil)
qed

theorem single_candidate_shortcut_witness:
  "length [''only.ovpn''] \<le> 1
   \<and> pickMostPossibleFile [''only.ovpn''] [''only'', ''paris''] = [''only.ovpn'']"
proof -
  have h: "length [''only.ovpn''] \<le> 1" by simp
  from h single_candidate_shortcut [OF h, of "[''only'', ''paris'']"]
  show ?thesis by (rule conjI)
qed

subsection \<open>The step against the words of the specification\<close>

lemma startsWith_prefix: "startsWith s p = prefix p s"
  by (induction s p rule: startsWith.induct) auto

lemma includes_str_sublist: "includes_str s p = sublist p s"
  by (induction s) (simp_all add: startsWith_prefix sublist_Cons_right)

lemma of_char_underscore: "((of_char c :: nat) = 95) = (c = CHR ''_'')"
proof
  assume "(of_char c :: nat) = 95"
  then have "(of_char c :: nat) = of_char CHR ''_''" by simp
  then show "c = CHR ''_''" by (simp only: of_char_eq_iff)
next
  assume "c = CHR ''_''"
  then show "(of_char c :: nat) = 95" by simp
qed

lemma kept_iff:
  "(\<not> ((\<not> isWordChar c \<and> \<not> isSpaceChar c) \<or> c = CHR ''_'')) = (isAlnum c \<or> isSpaceChar c)"
proof -
  have "(c = CHR ''_'') = ((of_char c :: nat) = 95)"
    by (simp only: of_char_underscore)
  then show ?thesis
    by (auto simp: isWordChar_def isSpaceChar_def isAlnum_def Let_def)
qed

lemma replace_nonword_filter:
  "replace_nonword s = filter (\<lambda>ch. isAlnum ch \<or> isSpaceChar ch) s"
proof (induction s)
  case Nil
  show ?case by simp
next
  case (Cons c cs)
  show ?case
  proof (cases "isAlnum c \<or> isSpaceChar c")
    case True
    with kept_iff [of c] have "\<not> ((\<not> isWordChar c \<and> \<not> isSpaceChar c) \<or> c = CHR ''_'')"
      by simp
    with True Cons show ?thesis by simp
  next
    case False
    with kept_iff [of c] have "(\<not> isWordChar c \<and> \<not> isSpaceChar c) \<or> c = CHR ''_''"
      by simp
    with False Cons show ?thesis by auto
  qed
qed

lemma spec_collapse_space:
  "isSpaceChar c \<Longrightarrow> spec_collapse (c # cs) = CHR '' '' # spec_collapse (dropWhile isSpaceChar cs)"
  by (induction cs arbitrary: c) simp_all

lemma spec_collapse_other:
  "\<not> isSpaceChar c \<Longrightarrow> spec_collapse (c # cs) = c # spec_collapse cs"
  by (cases cs) simp_all

lemma replace_spaces_collapse: "replace_spaces s = spec_collapse s"
  by (induction s rule: replace_spaces.induct)
     (simp_all add: spec_collapse_space spec_collapse_other)

lemma normalize_alnum: "replace_spaces (replace_nonword s) = alnum_normalize s"
  by (simp add: alnum_normalize_def replace_nonword_filter replace_spaces_collapse)

lemma narrowStep_alnum: "narrowStep v p f = alnum_narrow_step v p f"
  by (simp add: narrowStep_def alnum_narrow_step_def includes_str_sublist normalize_alnum)

text \<open>
  On a code unit that is a letter or a digit of ASCII, white space or punctuation, the
  two normalisations keep the same: they differ on the other code units only.
\<close>

lemma ascii_kept_iff:
  assumes "isAlnum ch \<or> isSpaceChar ch \<or> isPunctuation ch"
  shows "(\<not> (isPunctuation ch \<or> ch = CHR ''_'')) = (isAlnum ch \<or> isSpaceChar ch)"
proof -
  have "(ch = CHR ''_'') = ((of_char ch :: nat) = 95)"
    by (simp only: of_char_underscore)
  with assms show ?thesis
    by (auto simp: isPunctuation_def isSpaceChar_def isAlnum_def Let_def)
qed

lemma ascii_normalize:
  assumes "\<forall>ch\<in>set c. isAlnum ch \<or> isSpaceChar ch \<or> isPunctuation ch"
  shows "alnum_normalize c = spec_normalize c"
proof -
  have "filter (\<lambda>ch. isAlnum ch \<or> isSpaceChar ch) c
          = filter (\<lambda>ch. \<not> (isPunctuation ch \<or> ch = CHR ''_'')) c"
  proof (rule filter_cong [OF refl])
    fix x
    assume "x \<in> set c"
    with assms have "isAlnum x \<or> isSpaceChar x \<or> isPunctuation x" by blast
    then show "(isAlnum x \<or> isSpaceChar x) = (\<not> (isPunctuation x \<or> x = CHR ''_''))"
      by (rule ascii_kept_iff [symmetric])
  qed
  then show ?thesis by (simp add: alnum_normalize_def spec_normalize_def)
qed

lemma ascii_narrow_step:
  assumes "\<forall>c\<in>set v. \<forall>ch\<in>set c. isAlnum ch \<or> isSpaceChar ch \<or> isPunctuation ch"
  shows "alnum_narrow_step v p f = spec_narrow_step v p f"
proof -
  have "filter (\<lambda>c. sublist (join p '' '') (alnum_normalize c)) v
          = filter (\<lambda>c. sublist (join p '' '') (spec_normalize c)) v"
  proof (rule filter_cong [OF refl])
    fix c
    assume "c \<in> set v"
    with assms have "\<forall>ch\<in>set c. isAlnum ch \<or> isSpaceChar ch \<or> isPunctuation ch" by blast
    then have "alnum_normalize c = spec_normalize c" by (rule ascii_normalize)
    then show "sublist (join p '' '') (alnum_normalize c) = sublist (join p '' '') (spec_normalize c)"
      by simp
  qed
  then show ?thesis by (simp add: alnum_narrow_step_def spec_narrow_step_def)
qed

text \<open>
  C4 (narrowing step rule), as the code has it. The body of the loop filters the
  original candidate list for the candidates whose normalised text contains the
  accumulated phrase as a contiguous substring, and replaces the working set only by a
  filtered set that is non-empty and strictly smaller; otherwise the working set stays
  as it is and the loop goes on. The normalisation keeps the letters and digits of
  ASCII and the white space, collapsed, and strips every other code unit. The function
  starts from the candidate list, and its result after one more token is that step
  applied to the result before it, with all the tokens read so far as the phrase. On
  candidates made of letters and digits of ASCII, white space and punctuation, the step
  is the step of the specification.
\<close>

theorem narrowing_step_rule:
  "narrowStep vpnFiles possibleLocation files
     = alnum_narrow_step vpnFiles possibleLocation files
   \<and> pickMostPossibleFile vpnFiles [] = vpnFiles
   \<and> pickMostPossibleFile vpnFiles (tokens @ [token])
       = alnum_narrow_step vpnFiles (tokens @ [token]) (pickMostPossibleFile vpnFiles tokens)
   \<and> ((\<forall>vpnFile\<in>set vpnFiles. \<forall>ch\<in>set vpnFile.
          isAlnum ch \<or> isSpaceChar ch \<or> isPunctuation ch) \<longrightarrow>
        narrowStep vpnFiles possibleLocation files
          = spec_narrow_step vpnFiles possibleLocation files)"
proof (intro conjI impI)
  show "narrowStep vpnFiles possibleLocation files
          = alnum_narrow_step vpnFiles possibleLocation files"
    by (rule narrowStep_alnum)
  show "pickMostPossibleFile vpnFiles [] = vpnFiles"
    by (simp add: pickMostPossibleFile_def)
  show "pickMostPossibleFile vpnFiles (tokens @ [token])
       = alnum_narrow_step vpnFiles (tokens @ [token]) (pickMostPossibleFile vpnFiles tokens)"
    by (simp add: pickMostPossibleFile_snoc narrowStep_alnum)
  show "narrowStep vpnFiles possibleLocation files
          = spec_narrow_step vpnFiles possibleLocation files"
    if "\<forall>vpnFile\<in>set vpnFiles. \<forall>ch\<in>set vpnFile.
          isAlnum ch \<or> isSpaceChar ch \<or> isPunctuation ch"
    using that by (simp add: narrowStep_alnum ascii_narrow_step)
qed

theorem narrowing_step_rule_witness:
  "narrowStep [''vpn uk london.ovpn'', ''vpn_uk leeds.ovpn''] [''uk'', ''leeds'']
       [''vpn uk london.ovpn'', ''vpn_uk leeds.ovpn'']
     = spec_narrow_step [''vpn uk london.ovpn'', ''vpn_uk leeds.ovpn''] [''uk'', ''leeds'']
         [''vpn uk london.ovpn'', ''vpn_uk leeds.ovpn'']
   \<and> spec_narrow_step [''vpn uk london.ovpn'', ''vpn_uk leeds.ovpn''] [''uk'', ''leeds'']
         [''vpn uk london.ovpn'', ''vpn_uk leeds.ovpn'']
     = [''vpn_uk leeds.ovpn'']"
proof -
  have h: "\<forall>vpnFile\<in>set [''vpn uk london.ovpn'', ''vpn_uk leeds.ovpn'']. \<forall>ch\<in>set vpnFile.
          isAlnum ch \<or> isSpaceChar ch \<or> isPunctuation ch"
    by code_simp
  have a: "narrowStep [''vpn uk london.ovpn'', ''vpn_uk leeds.ovpn''] [''uk'', ''leeds'']
       [''vpn uk london.ovpn'', ''vpn_uk leeds.ovpn'']
     = spec_narrow_step [''vpn uk london.ovpn'', ''vpn_uk leeds.ovpn''] [''uk'', ''leeds'']
         [''vpn uk london.ovpn'', ''vpn_uk leeds.ovpn'']"
    using narrowing_step_rule [where vpnFiles = "[''vpn uk london.ovpn'', ''vpn_uk leeds.ovpn'']",
        THEN conjunct2, THEN conjunct2, THEN conjunct2] h
    by (rule mp)
  have b: "spec_narrow_step [''vpn uk london.ovpn'', ''vpn_uk leeds.ovpn''] [''uk'', ''leeds'']
         [''vpn uk london.ovpn'', ''vpn_uk leeds.ovpn'']
     = [''vpn_uk leeds.ovpn'']"
    by code_simp
  from a b show ?thesis by (rule conjI)
qed

text \<open>
  The step of the specification is not the step of the code on every candidate. Take
  the name of Zurich spelled with the letter u with diaeresis (the code unit \<open>0xFC\<close>)
  as the token, and the candidates \<open>vpn\<close>, that name and \<open>.ovpn\<close>, and
  \<open>vpn bern.ovpn\<close>. The code strips the letter with the diaeresis from the candidate, no
  candidate contains the token, and the working set stays; stripping punctuation and
  underscores keeps the letter and narrows to the first candidate.
\<close>

theorem narrowing_step_rule_counterexample:
  "narrowStep [''vpn z'' @ [CHR 0xFC] @ ''rich.ovpn'', ''vpn bern.ovpn''] [''z'' @ [CHR 0xFC] @ ''rich'']
       [''vpn z'' @ [CHR 0xFC] @ ''rich.ovpn'', ''vpn bern.ovpn'']
     = [''vpn z'' @ [CHR 0xFC] @ ''rich.ovpn'', ''vpn bern.ovpn'']
   \<and> spec_narrow_step [''vpn z'' @ [CHR 0xFC] @ ''rich.ovpn'', ''vpn bern.ovpn'']
       [''z'' @ [CHR 0xFC] @ ''rich'']
       [''vpn z'' @ [CHR 0xFC] @ ''rich.ovpn'', ''vpn bern.ovpn'']
     = [''vpn z'' @ [CHR 0xFC] @ ''rich.ovpn'']
   \<and> pickMostPossibleFile [''vpn z'' @ [CHR 0xFC] @ ''rich.ovpn'', ''vpn bern.ovpn'']
       [''z'' @ [CHR 0xFC] @ ''rich'']
     = [''vpn z'' @ [CHR 0xFC] @ ''rich.ovpn'', ''vpn bern.ovpn'']
   \<and> replace_spaces (replace_nonword (''vpn z'' @ [CHR 0xFC] @ ''rich.ovpn'')) = ''vpn zrichovpn''
   \<and> narrowStep [''vpn z'' @ [CHR 0xFC] @ ''rich.ovpn'', ''vpn bern.ovpn''] [''z'' @ [CHR 0xFC] @ ''rich'']
       [''vpn z'' @ [CHR 0xFC] @ ''rich.ovpn'', ''vpn bern.ovpn'']
     \<noteq> spec_narrow_step [''vpn z'' @ [CHR 0xFC] @ ''rich.ovpn'', ''vpn bern.ovpn'']
       [''z'' @ [CHR 0xFC] @ ''rich'']
       [''vpn z'' @ [CHR 0xFC] @ ''rich.ovpn'', ''vpn bern.ovpn'']"
  by code_simp

text \<open>
  C6 (narrowing example). The candidates \<open>vpn_france_paris.ovpn\<close> and
  \<open>vpn_france_lyon.ovpn\<close> with the token \<open>paris\<close> give \<open>vpn_france_paris.ovpn\<close> alone.
\<close>

theorem narrowing_example:
  "pickMostPossibleFile [''vpn_france_paris.ovpn'', ''vpn_france_lyon.ovpn''] [''paris'']
     = [''vpn_france_paris.ovpn'']"
  by code_simp

subsection \<open>The substring test: letter case and the spelling of the tokens\<close>











section \<open>Properties of the VPN handlers\<close>

subsection \<open>The tokens handed to the disambiguator\<close>

lemma indexOf_found:
  "x \<in> set xs \<Longrightarrow> indexOf xs x = int (length (takeWhile (\<lambda>y. y \<noteq> x) xs))"
  by (induction xs) (auto simp: Let_def)

lemma indexOf_absent: "x \<notin> set xs \<Longrightarrow> indexOf xs x = - 1"
  by (induction xs) (auto simp: Let_def)

lemma slice_nat: "slice xs (int k) = drop k xs"
  by (simp add: slice_def Let_def min_def)

lemma tokensAfterLocation_found:
  assumes "location \<in> set tokens"
  shows "tokensAfterLocation tokens (Some location) = dropWhile (\<lambda>t. t \<noteq> location) tokens"
proof -
  from assms have "Some location \<in> set (map Some tokens)" by simp
  then have "indexOf (map Some tokens) (Some location)
               = int (length (takeWhile (\<lambda>y. y \<noteq> Some location) (map Some tokens)))"
    by (rule indexOf_found)
  also have "takeWhile (\<lambda>y. y \<noteq> Some location) (map Some tokens)
               = map Some (takeWhile (\<lambda>t. t \<noteq> location) tokens)"
    by (simp add: takeWhile_map comp_def)
  finally have "indexOf (map Some tokens) (Some location)
                  = int (length (takeWhile (\<lambda>t. t \<noteq> location) tokens))"
    by simp
  then show ?thesis
    by (simp add: tokensAfterLocation_def slice_nat dropWhile_eq_drop)
qed

text \<open>
  C7 (token window). When the token list contains the location, \<open>startVpnHandler\<close>
  hands to the disambiguator the suffix of the token list that starts at the first
  occurrence of the location: the window computed by the handler is that suffix, the
  tokens before it are dropped and the location token is the first one kept; the handler
  is the enumeration of the candidates followed by \<open>pickMostPossibleFile\<close> on the
  candidates and that suffix, and then the dispatch of the first file left; and so it
  behaves on the token list as it does on the suffix alone.
\<close>

theorem token_window:
  assumes "location \<in> set tokens"
  shows "tokensAfterLocation tokens (Some location) = dropWhile (\<lambda>t. t \<noteq> location) tokens
         \<and> (\<exists>before rest. tokens = before @ location # rest \<and> location \<notin> set before
               \<and> tokensAfterLocation tokens (Some location) = location # rest)
         \<and> startVpnHandler at svc (Some location) tokens
             = (case getLocationVpnFiles svc (Some location) of
                  (Inl e, log) \<Rightarrow> (Inl e, log)
                | (Inr vpnFiles, log) \<Rightarrow>
                    (case firstElement
                            (pickMostPossibleFile vpnFiles
                               (dropWhile (\<lambda>t. t \<noteq> location) tokens)) of
                       None \<Rightarrow> (Inl TypeError, log)
                     | Some vpnFilePath \<Rightarrow>
                         (let vpnFileName = firstElement (split_str vpnFilePath CHR ''.'');
                              (r, log') =
                                sendAction svc
                                  (JObject [(''name'', JString (VpnStart at)),
                                            (''props'',
                                             JObject [(''vpnFileName'', json_of vpnFileName)])])
                          in (r, log @ log'))))
         \<and> startVpnHandler at svc (Some location) tokens
             = startVpnHandler at svc (Some location) (dropWhile (\<lambda>t. t \<noteq> location) tokens)"
proof (intro conjI)
  show a: "tokensAfterLocation tokens (Some location) = dropWhile (\<lambda>t. t \<noteq> location) tokens"
    using assms by (rule tokensAfterLocation_found)
  from assms obtain before rest where
    split: "tokens = before @ location # rest" and first: "location \<notin> set before"
    by (auto dest: split_list_first)
  from first
  have dw: "dropWhile (\<lambda>t. t \<noteq> location) (before @ location # rest) = location # rest"
    by (induction before) auto
  with a split first
  show "\<exists>before rest. tokens = before @ location # rest \<and> location \<notin> set before
               \<and> tokensAfterLocation tokens (Some location) = location # rest"
    by auto
  from split dw have "location \<in> set (dropWhile (\<lambda>t. t \<noteq> location) tokens)"
    by simp
  then have b: "tokensAfterLocation (dropWhile (\<lambda>t. t \<noteq> location) tokens) (Some location)
               = dropWhile (\<lambda>t. t \<noteq> location) tokens"
    by (simp add: tokensAfterLocation_found)
  show "startVpnHandler at svc (Some location) tokens
             = (case getLocationVpnFiles svc (Some location) of
                  (Inl e, log) \<Rightarrow> (Inl e, log)
                | (Inr vpnFiles, log) \<Rightarrow>
                    (case firstElement
                            (pickMostPossibleFile vpnFiles
                               (dropWhile (\<lambda>t. t \<noteq> location) tokens)) of
                       None \<Rightarrow> (Inl TypeError, log)
                     | Some vpnFilePath \<Rightarrow>
                         (let vpnFileName = firstElement (split_str vpnFilePath CHR ''.'');
                              (r, log') =
                                sendAction svc
                                  (JObject [(''name'', JString (VpnStart at)),
                                            (''props'',
                                             JObject [(''vpnFileName'', json_of vpnFileName)])])
                          in (r, log @ log'))))"
    by (simp only: startVpnHandler_def a)
  show "startVpnHandler at svc (Some location) tokens
             = startVpnHandler at svc (Some location) (dropWhile (\<lambda>t. t \<noteq> location) tokens)"
    by (simp only: startVpnHandler_def a b)
qed

theorem token_window_witness:
  "''france'' \<in> set [''vpn'', ''start'', ''france'', ''paris'']
   \<and> tokensAfterLocation [''vpn'', ''start'', ''france'', ''paris''] (Some ''france'')
       = [''france'', ''paris'']
   \<and> pickMostPossibleFile [''vpn france lyon paris.ovpn'', ''vpn france paris.ovpn'']
         [''france'', ''paris'']
       = [''vpn france paris.ovpn'']
   \<and> startVpnHandler exampleActionTypes
         (exampleServices [''vpn france lyon paris.ovpn'', ''vpn france paris.ovpn''])
         (Some ''france'') [''vpn'', ''start'', ''france'', ''paris'']
       = (Inr ''{}'',
          [CallGetDirFiles (Some ''/etc/vpn''), CallCreateConnection,
           CallSendToChannelWithResponse (Some ''ansible'')
             (Some ''{\"name\":\"VpnStart\",\"props\":{\"vpnFileName\":\"vpn france paris\"}}'')])"
proof -
  have h: "''france'' \<in> set [''vpn'', ''start'', ''france'', ''paris'']"
    by code_simp
  have d: "dropWhile (\<lambda>t. t \<noteq> ''france'') [''vpn'', ''start'', ''france'', ''paris'']
             = [''france'', ''paris'']"
    by code_simp
  have "tokensAfterLocation [''vpn'', ''start'', ''france'', ''paris''] (Some ''france'')
          = dropWhile (\<lambda>t. t \<noteq> ''france'') [''vpn'', ''start'', ''france'', ''paris'']"
    using token_window [OF h] by (rule conjunct1)
  then have a: "tokensAfterLocation [''vpn'', ''start'', ''france'', ''paris''] (Some ''france'')
          = [''france'', ''paris'']"
    by (simp only: d)
  have b: "pickMostPossibleFile [''vpn france lyon paris.ovpn'', ''vpn france paris.ovpn'']
         [''france'', ''paris'']
       = [''vpn france paris.ovpn'']"
    by code_simp
  have c: "startVpnHandler exampleActionTypes
         (exampleServices [''vpn france lyon paris.ovpn'', ''vpn france paris.ovpn''])
         (Some ''france'') [''vpn'', ''start'', ''france'', ''paris'']
       = (Inr ''{}'',
          [CallGetDirFiles (Some ''/etc/vpn''), CallCreateConnection,
           CallSendToChannelWithResponse (Some ''ansible'')
             (Some ''{\"name\":\"VpnStart\",\"props\":{\"vpnFileName\":\"vpn france paris\"}}'')])"
    by code_simp
  from h a b c show ?thesis by (intro conjI)
qed

subsection \<open>An enumeration without candidates\<close>

lemma snd_getLocationVpnFiles:
  "snd (getLocationVpnFiles svc location) = [CallGetDirFiles (config_get svc ''VPN.FolderFilesPath'')]"
  by (simp add: getLocationVpnFiles_def Let_def split: sum.splits)

text \<open>
  C8 (empty enumeration is terminal). When the files of the folder, filtered by the
  location, leave no candidate, \<open>startVpnHandler\<close> fails with an error; the only call
  it has made is the one enumeration of the folder: no connection is opened, no message
  is sent, and the enumeration is not tried again.
\<close>

theorem empty_enumeration_terminal:
  assumes "fst (getLocationVpnFiles svc location) = Inr []"
  shows "startVpnHandler at svc location tokens
           = (Inl TypeError, [CallGetDirFiles (config_get svc ''VPN.FolderFilesPath'')])
         \<and> CallCreateConnection \<notin> set (snd (startVpnHandler at svc location tokens))
         \<and> (\<forall>q p. CallSendToChannelWithResponse q p
                    \<notin> set (snd (startVpnHandler at svc location tokens)))"
proof -
  from assms snd_getLocationVpnFiles [of svc location]
  have "getLocationVpnFiles svc location
          = (Inr [], [CallGetDirFiles (config_get svc ''VPN.FolderFilesPath'')])"
    by (cases "getLocationVpnFiles svc location") simp
  then have "startVpnHandler at svc location tokens
           = (Inl TypeError, [CallGetDirFiles (config_get svc ''VPN.FolderFilesPath'')])"
    by (simp add: startVpnHandler_def pickMostPossibleFile_Nil firstElement_def)
  then show ?thesis by simp
qed

theorem empty_enumeration_terminal_witness:
  "fst (getLocationVpnFiles (exampleServices [''vpn_uk_london.ovpn'']) (Some ''france'')) = Inr []
   \<and> startVpnHandler exampleActionTypes (exampleServices [''vpn_uk_london.ovpn''])
        (Some ''france'') [''vpn'', ''start'', ''france'']
       = (Inl TypeError, [CallGetDirFiles (Some ''/etc/vpn'')])"
proof -
  have h: "fst (getLocationVpnFiles (exampleServices [''vpn_uk_london.ovpn'']) (Some ''france''))
             = Inr []"
    by code_simp
  have c: "config_get (exampleServices [''vpn_uk_london.ovpn'']) ''VPN.FolderFilesPath''
             = Some ''/etc/vpn''"
    by code_simp
  have "startVpnHandler exampleActionTypes (exampleServices [''vpn_uk_london.ovpn''])
        (Some ''france'') [''vpn'', ''start'', ''france'']
       = (Inl TypeError,
          [CallGetDirFiles (config_get (exampleServices [''vpn_uk_london.ovpn'']) ''VPN.FolderFilesPath'')])"
    using empty_enumeration_terminal [OF h] by (rule conjunct1)
  then have "startVpnHandler exampleActionTypes (exampleServices [''vpn_uk_london.ovpn''])
        (Some ''france'') [''vpn'', ''start'', ''france'']
       = (Inl TypeError, [CallGetDirFiles (Some ''/etc/vpn'')])"
    by (simp only: c)
  with h show ?thesis by (rule conjI)
qed

subsection \<open>Letter case in the selection of the candidates\<close>





subsection \<open>The messages sent to the queue\<close>

lemma split_str_takeWhile:
  "\<exists>ws. split_str s sep = takeWhile (\<lambda>c. c \<noteq> sep) s # ws"
  by (induction s) auto

lemma firstElement_split_str:
  "firstElement (split_str s sep) = Some (takeWhile (\<lambda>c. c \<noteq> sep) s)"
  using split_str_takeWhile [of s sep] by (auto simp: firstElement_def)

lemma sendAction_sent:
  "CallSendToChannelWithResponse q p \<in> set (snd (sendAction svc payload))
     \<Longrightarrow> p = JSON_stringify payload \<and> q = config_get svc ''Rabbit.AnsibleQueueName''"
  by (auto simp: sendAction_def Let_def split: sum.splits)

lemma startVpnHandler_sent:
  assumes "CallSendToChannelWithResponse q p \<in> set (snd (startVpnHandler at svc location tokens))"
  shows "\<exists>vpnFiles vpnFilePath.
           fst (getLocationVpnFiles svc location) = Inr vpnFiles
           \<and> firstElement (pickMostPossibleFile vpnFiles (tokensAfterLocation tokens location))
               = Some vpnFilePath
           \<and> p = JSON_stringify
                   (JObject [(''name'', JString (VpnStart at)),
                             (''props'', JObject [(''vpnFileName'',
                                JString (takeWhile (\<lambda>c. c \<noteq> CHR ''.'') vpnFilePath))])])"
proof (cases "getLocationVpnFiles svc location")
  case (Pair r log)
  have log: "log = [CallGetDirFiles (config_get svc ''VPN.FolderFilesPath'')]"
    using snd_getLocationVpnFiles [of svc location] Pair by simp
  show ?thesis
  proof (cases r)
    case (Inl e)
    with Pair log assms show ?thesis by (simp add: startVpnHandler_def)
  next
    case (Inr vpnFiles)
    show ?thesis
    proof (cases "firstElement (pickMostPossibleFile vpnFiles (tokensAfterLocation tokens location))")
      case None
      with Pair Inr log assms show ?thesis by (simp add: startVpnHandler_def)
    next
      case (Some vpnFilePath)
      let ?payload = "JObject [(''name'', JString (VpnStart at)),
                             (''props'', JObject [(''vpnFileName'',
                                JString (takeWhile (\<lambda>c. c \<noteq> CHR ''.'') vpnFilePath))])]"
      from Pair Inr Some
      have "snd (startVpnHandler at svc location tokens) = log @ snd (sendAction svc ?payload)"
        by (simp add: startVpnHandler_def firstElement_split_str json_of_def split: prod.splits)
      with assms log have "CallSendToChannelWithResponse q p \<in> set (snd (sendAction svc ?payload))"
        by simp
      then have "p = JSON_stringify ?payload" by (rule sendAction_sent [THEN conjunct1])
      with Pair Inr Some show ?thesis by simp
    qed
  qed
qed

text \<open>
  C5 (dispatch wire payload). Every message a VPN handler sends to the queue is the
  serialization of an object with the members \<open>name\<close> and \<open>props\<close>, in this order:
  \<open>name\<close> is the action type; \<open>props\<close> is the empty object for the stop and the
  status handler, and for the start handler it has the one member \<open>vpnFileName\<close>, the
  first file of the narrowed candidates cut before its first full stop. The last two
  parts give the text of the two serializations.
\<close>

theorem dispatch_payload_shape:
  "(CallSendToChannelWithResponse q p \<in> set (snd (stopVpnHandler at svc)) \<longrightarrow>
      p = JSON_stringify (JObject [(''name'', JString (VpnStop at)), (''props'', JObject [])]))
   \<and> (CallSendToChannelWithResponse q p \<in> set (snd (vpnStatusHandler at svc)) \<longrightarrow>
      p = JSON_stringify (JObject [(''name'', JString (VpnStatus at)), (''props'', JObject [])]))
   \<and> (CallSendToChannelWithResponse q p \<in> set (snd (startVpnHandler at svc location tokens)) \<longrightarrow>
      (\<exists>vpnFiles vpnFilePath.
           fst (getLocationVpnFiles svc location) = Inr vpnFiles
           \<and> firstElement (pickMostPossibleFile vpnFiles (tokensAfterLocation tokens location))
               = Some vpnFilePath
           \<and> p = JSON_stringify
                   (JObject [(''name'', JString (VpnStart at)),
                             (''props'', JObject [(''vpnFileName'',
                                JString (takeWhile (\<lambda>c. c \<noteq> CHR ''.'') vpnFilePath))])])))
   \<and> JSON_stringify (JObject [(''name'', JString name), (''props'', JObject [])])
       = Some (''{\"name\":'' @ quoteJSONString name @ '',\"props\":{}}'')
   \<and> JSON_stringify (JObject [(''name'', JString name),
          (''props'', JObject [(''vpnFileName'', JString vpnFileName)])])
       = Some (''{\"name\":'' @ quoteJSONString name @ '',\"props\":{\"vpnFileName\":''
                 @ quoteJSONString vpnFileName @ ''}}'')"
proof (intro conjI impI)
  show "p = JSON_stringify (JObject [(''name'', JString (VpnStop at)), (''props'', JObject [])])"
    if "CallSendToChannelWithResponse q p \<in> set (snd (stopVpnHandler at svc))"
    using that unfolding stopVpnHandler_def by (rule sendAction_sent [THEN conjunct1])
  show "p = JSON_stringify (JObject [(''name'', JString (VpnStatus at)), (''props'', JObject [])])"
    if "CallSendToChannelWithResponse q p \<in> set (snd (vpnStatusHandler at svc))"
    using that unfolding vpnStatusHandler_def by (rule sendAction_sent [THEN conjunct1])
  show "\<exists>vpnFiles vpnFilePath.
           fst (getLocationVpnFiles svc location) = Inr vpnFiles
           \<and> firstElement (pickMostPossibleFile vpnFiles (tokensAfterLocation tokens location))
               = Some vpnFilePath
           \<and> p = JSON_stringify
                   (JObject [(''name'', JString (VpnStart at)),
                             (''props'', JObject [(''vpnFileName'',
                                JString (takeWhile (\<lambda>c. c \<noteq> CHR ''.'') vpnFilePath))])])"
    if "CallSendToChannelWithResponse q p \<in> set (snd (startVpnHandler at svc location tokens))"
    using that by (rule startVpnHandler_sent)
  show "JSON_stringify (JObject [(''name'', JString name), (''props'', JObject [])])
       = Some (''{\"name\":'' @ quoteJSONString name @ '',\"props\":{}}'')"
    by (simp add: quoteJSONString_def quoteChar_def)
  show "JSON_stringify (JObject [(''name'', JString name),
          (''props'', JObject [(''vpnFileName'', JString vpnFileName)])])
       = Some (''{\"name\":'' @ quoteJSONString name @ '',\"props\":{\"vpnFileName\":''
                 @ quoteJSONString vpnFileName @ ''}}'')"
    by (simp add: quoteJSONString_def quoteChar_def)
qed

theorem dispatch_payload_shape_witness:
  "CallSendToChannelWithResponse (Some ''ansible'')
       (Some ''{\"name\":\"VpnStart\",\"props\":{\"vpnFileName\":\"vpn_france_paris\"}}'')
     \<in> set (snd (startVpnHandler exampleActionTypes
                (exampleServices [''vpn_france_paris.ovpn'', ''vpn_france_lyon.ovpn''])
                (Some ''france'') [''vpn'', ''start'', ''france'', ''paris'']))
   \<and> CallSendToChannelWithResponse (Some ''ansible'') (Some ''{\"name\":\"VpnStop\",\"props\":{}}'')
     \<in> set (snd (stopVpnHandler exampleActionTypes (exampleServices [])))
   \<and> CallSendToChannelWithResponse (Some ''ansible'') (Some ''{\"name\":\"VpnStatus\",\"props\":{}}'')
     \<in> set (snd (vpnStatusHandler exampleActionTypes (exampleServices [])))
   \<and> Some ''{\"name\":\"VpnStop\",\"props\":{}}''
       = JSON_stringify (JObject [(''name'', JString (VpnStop exampleActionTypes)), (''props'', JObject [])])
   \<and> (\<exists>vpnFiles vpnFilePath.
         fst (getLocationVpnFiles
                (exampleServices [''vpn_france_paris.ovpn'', ''vpn_france_lyon.ovpn''])
                (Some ''france'')) = Inr vpnFiles
         \<and> firstElement (pickMostPossibleFile vpnFiles
               (tokensAfterLocation [''vpn'', ''start'', ''france'', ''paris''] (Some ''france'')))
             = Some vpnFilePath
         \<and> Some ''{\"name\":\"VpnStart\",\"props\":{\"vpnFileName\":\"vpn_france_paris\"}}''
             = JSON_stringify
                 (JObject [(''name'', JString (VpnStart exampleActionTypes)),
                           (''props'', JObject [(''vpnFileName'',
                              JString (takeWhile (\<lambda>c. c \<noteq> CHR ''.'') vpnFilePath))])]))"
proof -
  have h1: "CallSendToChannelWithResponse (Some ''ansible'')
       (Some ''{\"name\":\"VpnStart\",\"props\":{\"vpnFileName\":\"vpn_france_paris\"}}'')
     \<in> set (snd (startVpnHandler exampleActionTypes
                (exampleServices [''vpn_france_paris.ovpn'', ''vpn_france_lyon.ovpn''])
                (Some ''france'') [''vpn'', ''start'', ''france'', ''paris'']))"
    by code_simp
  have h2: "CallSendToChannelWithResponse (Some ''ansible'') (Some ''{\"name\":\"VpnStop\",\"props\":{}}'')
     \<in> set (snd (stopVpnHandler exampleActionTypes (exampleServices [])))"
    by code_simp
  have h3: "CallSendToChannelWithResponse (Some ''ansible'') (Some ''{\"name\":\"VpnStatus\",\"props\":{}}'')
     \<in> set (snd (vpnStatusHandler exampleActionTypes (exampleServices [])))"
    by code_simp
  from dispatch_payload_shape [where q = "Some ''ansible''"
        and p = "Some ''{\"name\":\"VpnStop\",\"props\":{}}''"
        and at = exampleActionTypes and svc = "exampleServices []", THEN conjunct1] h2
  have a: "Some ''{\"name\":\"VpnStop\",\"props\":{}}''
       = JSON_stringify (JObject [(''name'', JString (VpnStop exampleActionTypes)), (''props'', JObject [])])"
    by (rule mp)
  from dispatch_payload_shape [where q = "Some ''ansible''"
        and p = "Some ''{\"name\":\"VpnStart\",\"props\":{\"vpnFileName\":\"vpn_france_paris\"}}''"
        and at = exampleActionTypes
        and svc = "exampleServices [''vpn_france_paris.ovpn'', ''vpn_france_lyon.ovpn'']"
        and location = "Some ''france''" and tokens = "[''vpn'', ''start'', ''france'', ''paris'']",
        THEN conjunct2, THEN conjunct2, THEN conjunct1] h1
  have b: "\<exists>vpnFiles vpnFilePath.
         fst (getLocationVpnFiles
                (exampleServices [''vpn_france_paris.ovpn'', ''vpn_france_lyon.ovpn''])
                (Some ''france'')) = Inr vpnFiles
         \<and> firstElement (pickMostPossibleFile vpnFiles
               (tokensAfterLocation [''vpn'', ''start'', ''france'', ''paris''] (Some ''france'')))
             = Some vpnFilePath
         \<and> Some ''{\"name\":\"VpnStart\",\"props\":{\"vpnFileName\":\"vpn_france_paris\"}}''
             = JSON_stringify
                 (JObject [(''name'', JString (VpnStart exampleActionTypes)),
                           (''props'', JObject [(''vpnFileName'',
                              JString (takeWhile (\<lambda>c. c \<noteq> CHR ''.'') vpnFilePath))])])"
    by (rule mp)
  from h1 h2 h3 a b show ?thesis by (intro conjI)
qed

section \<open>Properties of the retry\<close>

lemma runFunctionWithRetry_success:
  "action w = (Inr v, w1) \<Longrightarrow>
     runFunctionWithRetry action recovery (w, []) = (Inr v, (w1, [Attempt]))"
  by (simp add: runFunctionWithRetry_def attempt_def)

lemma runFunctionWithRetry_failure:
  "action w = (Inl e, w1) \<Longrightarrow> action (recovery w1) = (r, w2) \<Longrightarrow>
     runFunctionWithRetry action recovery (w, []) = (r, (w2, [Attempt, Recovery, Attempt]))"
  by (simp add: runFunctionWithRetry_def attempt_def recover_def)

lemma runFunctionWithRetry_log:
  "snd (snd (runFunctionWithRetry action recovery (w, []))) = [Attempt]
   \<or> snd (snd (runFunctionWithRetry action recovery (w, []))) = [Attempt, Recovery, Attempt]"
proof (cases "action w")
  case (Pair r w1)
  show ?thesis
  proof (cases r)
    case (Inl e)
    obtain r2 w2 where "action (recovery w1) = (r2, w2)" by (cases "action (recovery w1)")
    with Pair Inl show ?thesis by (simp add: runFunctionWithRetry_failure)
  next
    case (Inr v)
    with Pair show ?thesis by (simp add: runFunctionWithRetry_success)
  qed
qed

text \<open>
  C2 (retry once). A first attempt that succeeds is the result, and the recovery
  callback does not run. A first attempt that fails is followed by one run of the
  recovery callback and one more attempt, whose outcome is the result: its success, or
  its failure, which goes to the caller. The recovery callback runs at most once and
  the action at most twice.
\<close>

theorem retry_once_semantics:
  "(\<forall>v w1. action w = (Inr v, w1) \<longrightarrow>
       runFunctionWithRetry action recovery (w, []) = (Inr v, (w1, [Attempt])))
   \<and> (\<forall>e w1 v w2. action w = (Inl e, w1) \<and> action (recovery w1) = (Inr v, w2) \<longrightarrow>
       runFunctionWithRetry action recovery (w, [])
         = (Inr v, (w2, [Attempt, Recovery, Attempt])))
   \<and> (\<forall>e w1 e' w2. action w = (Inl e, w1) \<and> action (recovery w1) = (Inl e', w2) \<longrightarrow>
       runFunctionWithRetry action recovery (w, [])
         = (Inl e', (w2, [Attempt, Recovery, Attempt])))
   \<and> count_list (snd (snd (runFunctionWithRetry action recovery (w, [])))) Recovery \<le> 1
   \<and> count_list (snd (snd (runFunctionWithRetry action recovery (w, [])))) Attempt \<le> 2
   \<and> 1 \<le> count_list (snd (snd (runFunctionWithRetry action recovery (w, [])))) Attempt"
proof (intro conjI allI impI)
  show "runFunctionWithRetry action recovery (w, []) = (Inr v, (w1, [Attempt]))"
    if "action w = (Inr v, w1)" for v w1
    using that by (rule runFunctionWithRetry_success)
  show "runFunctionWithRetry action recovery (w, []) = (Inr v, (w2, [Attempt, Recovery, Attempt]))"
    if "action w = (Inl e, w1) \<and> action (recovery w1) = (Inr v, w2)" for e w1 v w2
    using that by (simp add: runFunctionWithRetry_failure)
  show "runFunctionWithRetry action recovery (w, []) = (Inl e', (w2, [Attempt, Recovery, Attempt]))"
    if "action w = (Inl e, w1) \<and> action (recovery w1) = (Inl e', w2)" for e w1 e' w2
    using that by (simp add: runFunctionWithRetry_failure)
  show "count_list (snd (snd (runFunctionWithRetry action recovery (w, [])))) Recovery \<le> 1"
    using runFunctionWithRetry_log [of action recovery w] by auto
  show "count_list (snd (snd (runFunctionWithRetry action recovery (w, [])))) Attempt \<le> 2"
    using runFunctionWithRetry_log [of action recovery w] by auto
  show "1 \<le> count_list (snd (snd (runFunctionWithRetry action recovery (w, [])))) Attempt"
    using runFunctionWithRetry_log [of action recovery w] by auto
qed

theorem retry_once_semantics_witness:
  "expiredOnce 0 = (Inl ''expired'', 0) \<and> expiredOnce (Suc 0) = (Inr ''OK'', Suc 0)
   \<and> runFunctionWithRetry expiredOnce Suc (0, [])
       = (Inr ''OK'', (Suc 0, [Attempt, Recovery, Attempt]))
   \<and> alwaysFails 0 = (Inl ''first'', 0) \<and> alwaysFails (Suc 0) = (Inl ''second'', Suc 0)
   \<and> runFunctionWithRetry alwaysFails Suc (0, [])
       = (Inl ''second'', (Suc 0, [Attempt, Recovery, Attempt]))"
proof -
  have h1: "expiredOnce 0 = (Inl ''expired'', 0)" by (simp add: expiredOnce_def)
  have h2: "expiredOnce (Suc 0) = (Inr ''OK'', Suc 0)" by (simp add: expiredOnce_def)
  have h3: "alwaysFails 0 = (Inl ''first'', 0)" by (simp add: alwaysFails_def)
  have h4: "alwaysFails (Suc 0) = (Inl ''second'', Suc 0)" by (simp add: alwaysFails_def)
  have a: "runFunctionWithRetry expiredOnce Suc (0, [])
             = (Inr ''OK'', (Suc 0, [Attempt, Recovery, Attempt]))"
    using retry_once_semantics [of expiredOnce 0 Suc] h1 h2 by blast
  have b: "runFunctionWithRetry alwaysFails Suc (0, [])
             = (Inl ''second'', (Suc 0, [Attempt, Recovery, Attempt]))"
    using retry_once_semantics [of alwaysFails 0 Suc] h3 h4 by blast
  from h1 h2 a h3 h4 b show ?thesis by (intro conjI)
qed

end
